theory Spec2Isabelle
  imports Complex_Main "HOL-Library.Word" "HOL-Library.Log_Nat"
begin

section \<open>The resampler of research/mal\_resampler.h\<close>

text \<open>
  The development follows the C file function by function. The file is a research
  sketch: its facade (construction, rate control, dispatch of read and seek, the cache
  queries) is written out, its two conversion back ends are stubs that return 0.

  Conventions of the embedding.
  \<^item> A C \<open>double\<close> is an IEEE 754 binary64 value: a finite value, one of the two zeros,
    one of the two infinities or NaN. Every arithmetic operation and every conversion
    from an integer or a decimal literal rounds its exact result to the nearest
    representable value, ties to even, and each operation is rounded on its own (no
    excess precision, no contraction). Comparisons with NaN are false.
  \<^item> A conversion from \<open>double\<close> to \<open>mal_uint64\<close> truncates towards zero and is
    undefined in C when the value is not finite or the truncated value does not fit;
    the model ends with the fault \<open>Undefined_conversion\<close> there.
  \<^item> \<open>mal_assert\<close> is the C \<open>assert\<close>: a failing assertion ends the computation with
    the fault \<open>Assertion_failed\<close>.
  \<^item> Fixed-width integers are words; pointers are options (\<open>None\<close> is \<open>NULL\<close>).
\<close>

subsection \<open>Doubles\<close>

text \<open>
  The finite values of binary64 are the reals \<open>m * 2 ^ e\<close> with \<open>|m| < 2 ^ 53\<close> and
  \<open>- 1074 \<le> e \<le> 971\<close>. Rounding a real \<open>x\<close> picks the exponent of the binade of
  \<open>x\<close> (the least one, -1074, for the subnormal range), and rounds \<open>x\<close> to a multiple of
  that power of two, ties to the even multiple. The exponent is read off the bit length
  of the integer part of \<open>|x| * 2 ^ 1074\<close>.
\<close>

definition binary64 :: "real set" where
  "binary64 =
     {x. \<exists>m e. x = of_int m * 2 powi e \<and> \<bar>m\<bar> < 2 ^ 53 \<and> - 1074 \<le> e \<and> e \<le> 971}"

definition round_half_even :: "real \<Rightarrow> int" where
  "round_half_even z =
     (let n = \<lfloor>z\<rfloor>; f = z - of_int n
      in if f < 1 / 2 then n else if 1 / 2 < f then n + 1 else if even n then n else n + 1)"

definition exponent :: "real \<Rightarrow> int" where
  "exponent x = max (bitlen \<lfloor>\<bar>x\<bar> * 2 ^ 1074\<rfloor> - 1127) (- 1074)"

definition round_binary64 :: "real \<Rightarrow> real" where
  "round_binary64 x = of_int (round_half_even (x / 2 powi exponent x)) * 2 powi exponent x"

text \<open>
  In \<open>Finite x\<close> the real \<open>x\<close> is the value of a finite double other than the negative
  zero; \<open>Finite 0\<close> is the positive zero. The operations below return values of
  \<open>binary64\<close> only.
\<close>

datatype double = Finite real | Minus_zero | Plus_infinity | Minus_infinity | NaN


text \<open>The double nearest to a real: overflow gives an infinity, and a negative real that
  rounds to zero gives the negative zero.\<close>

definition double_of_real :: "real \<Rightarrow> double" where
  "double_of_real x =
     (let y = round_binary64 x
      in if 2 ^ 1024 \<le> y then Plus_infinity
         else if y \<le> - (2 ^ 1024) then Minus_infinity
         else if y = 0 \<and> x < 0 then Minus_zero
         else Finite y)"

fun is_nan :: "double \<Rightarrow> bool" where
  "is_nan NaN = True"
| "is_nan _ = False"

fun is_infinite :: "double \<Rightarrow> bool" where
  "is_infinite Plus_infinity = True"
| "is_infinite Minus_infinity = True"
| "is_infinite _ = False"

fun is_finite :: "double \<Rightarrow> bool" where
  "is_finite (Finite x) = True"
| "is_finite Minus_zero = True"
| "is_finite _ = False"

fun valof :: "double \<Rightarrow> real" where
  "valof (Finite x) = x"
| "valof _ = 0"

fun sign_bit :: "double \<Rightarrow> bool" where
  "sign_bit (Finite x) = (x < 0)"
| "sign_bit Minus_zero = True"
| "sign_bit Minus_infinity = True"
| "sign_bit _ = False"

definition is_zero :: "double \<Rightarrow> bool" where
  "is_zero d = (is_finite d \<and> valof d = 0)"

definition signed_zero :: "bool \<Rightarrow> double" where
  "signed_zero negative = (if negative then Minus_zero else Finite 0)"

definition signed_infinity :: "bool \<Rightarrow> double" where
  "signed_infinity negative = (if negative then Minus_infinity else Plus_infinity)"

fun double_neg :: "double \<Rightarrow> double" where
  "double_neg (Finite x) = (if x = 0 then Minus_zero else Finite (- x))"
| "double_neg Minus_zero = Finite 0"
| "double_neg Plus_infinity = Minus_infinity"
| "double_neg Minus_infinity = Plus_infinity"
| "double_neg NaN = NaN"

text \<open>An exact sum of zero is the positive zero, unless both operands are the negative
  zero.\<close>

definition double_add :: "double \<Rightarrow> double \<Rightarrow> double" where
  "double_add a b =
     (if is_nan a \<or> is_nan b then NaN
      else if is_infinite a
      then (if is_infinite b \<and> sign_bit a \<noteq> sign_bit b then NaN else a)
      else if is_infinite b then b
      else if valof a + valof b = 0
      then (if a = Minus_zero \<and> b = Minus_zero then Minus_zero else Finite 0)
      else double_of_real (valof a + valof b))"

definition double_sub :: "double \<Rightarrow> double \<Rightarrow> double" where
  "double_sub a b = double_add a (double_neg b)"

definition double_mul :: "double \<Rightarrow> double \<Rightarrow> double" where
  "double_mul a b =
     (if is_nan a \<or> is_nan b then NaN
      else if is_infinite a \<or> is_infinite b
      then (if is_zero a \<or> is_zero b then NaN
            else signed_infinity (sign_bit a \<noteq> sign_bit b))
      else if valof a * valof b = 0 then signed_zero (sign_bit a \<noteq> sign_bit b)
      else double_of_real (valof a * valof b))"

definition double_div :: "double \<Rightarrow> double \<Rightarrow> double" where
  "double_div a b =
     (if is_nan a \<or> is_nan b then NaN
      else if is_infinite a
      then (if is_infinite b then NaN else signed_infinity (sign_bit a \<noteq> sign_bit b))
      else if is_infinite b then signed_zero (sign_bit a \<noteq> sign_bit b)
      else if is_zero b
      then (if is_zero a then NaN else signed_infinity (sign_bit a \<noteq> sign_bit b))
      else if is_zero a then signed_zero (sign_bit a \<noteq> sign_bit b)
      else double_of_real (valof a / valof b))"

text \<open>Comparisons: false when an operand is NaN; the two zeros are equal.\<close>

fun rank :: "double \<Rightarrow> int" where
  "rank Minus_infinity = - 1"
| "rank Plus_infinity = 1"
| "rank _ = 0"

definition double_eq :: "double \<Rightarrow> double \<Rightarrow> bool" where
  "double_eq a b =
     (if is_nan a \<or> is_nan b then False
      else if rank a = rank b then (if rank a = 0 then valof a = valof b else True)
      else False)"

definition double_less :: "double \<Rightarrow> double \<Rightarrow> bool" where
  "double_less a b =
     (if is_nan a \<or> is_nan b then False
      else if rank a = rank b then (rank a = 0 \<and> valof a < valof b)
      else rank a < rank b)"

definition double_le :: "double \<Rightarrow> double \<Rightarrow> bool" where
  "double_le a b =
     (if is_nan a \<or> is_nan b then False
      else if rank a = rank b then (if rank a = 0 then valof a \<le> valof b else True)
      else rank a < rank b)"

definition double_greater :: "double \<Rightarrow> double \<Rightarrow> bool" where
  "double_greater a b = double_less b a"

definition double_ge :: "double \<Rightarrow> double \<Rightarrow> bool" where
  "double_ge a b = double_le b a"

text \<open>\<open>ceil\<close> and \<open>floor\<close> of math.h: exact, the sign of a zero result is that of the
  argument, infinities and NaN are returned as they are.\<close>

fun c_ceil :: "double \<Rightarrow> double" where
  "c_ceil (Finite x) = (if \<lceil>x\<rceil> = 0 \<and> x < 0 then Minus_zero else Finite (of_int \<lceil>x\<rceil>))"
| "c_ceil d = d"

fun c_floor :: "double \<Rightarrow> double" where
  "c_floor (Finite x) = Finite (of_int \<lfloor>x\<rfloor>)"
| "c_floor d = d"

subsection \<open>Faults and conversions\<close>

datatype fault = Assertion_failed | Undefined_conversion

definition double_trunc :: "real \<Rightarrow> int" where
  "double_trunc x = (if 0 \<le> x then \<lfloor>x\<rfloor> else \<lceil>x\<rceil>)"

fun double_to_uint64 :: "double \<Rightarrow> fault + 64 word" where
  "double_to_uint64 (Finite x) =
     (if 0 \<le> double_trunc x \<and> double_trunc x < 2 ^ 64
      then Inr (word_of_int (double_trunc x))
      else Inl Undefined_conversion)"
| "double_to_uint64 Minus_zero = Inr 0"
| "double_to_uint64 _ = Inl Undefined_conversion"

definition int_to_double :: "int \<Rightarrow> double" where
  "int_to_double k = double_of_real (of_int k)"

definition uint16_to_double :: "16 word \<Rightarrow> double" where
  "uint16_to_double n = double_of_real (real (unat n))"

definition uint32_to_double :: "32 word \<Rightarrow> double" where
  "uint32_to_double n = double_of_real (real (unat n))"

definition uint64_to_double :: "64 word \<Rightarrow> double" where
  "uint64_to_double n = double_of_real (real (unat n))"

subsection \<open>Types declared in mini\_al.h\<close>

text \<open>
  Modelled from the spec: the enumerations \<open>mal_format\<close> and \<open>mal_result\<close> are declared
  in mini\_al.h, which is not part of the research file. The resampler accepts the
  formats f32 and s16 only and reports every rejected argument as \<open>MAL_INVALID_ARGS\<close>.
  The first constructor of \<open>mal_format\<close> is the value 0 that \<open>mal_zero_object\<close> leaves.
\<close>

datatype mal_format =
  mal_format_unknown | mal_format_u8 | mal_format_s16 | mal_format_s24
  | mal_format_s32 | mal_format_f32

datatype mal_result = MAL_SUCCESS | MAL_INVALID_ARGS

subsection \<open>Constants, enumerations and structures\<close>

definition MAL_RESAMPLER_SEEK_NO_CLIENT_READ :: "32 word" where
  "MAL_RESAMPLER_SEEK_NO_CLIENT_READ = push_bit 0 1"

definition MAL_RESAMPLER_SEEK_INPUT_RATE :: "32 word" where
  "MAL_RESAMPLER_SEEK_INPUT_RATE = push_bit 1 1"

definition MAL_RESAMPLER_CACHE_SIZE_IN_BYTES :: nat where
  "MAL_RESAMPLER_CACHE_SIZE_IN_BYTES = 4096"

text \<open>The literals 0.001 and 100.0.\<close>

definition MAL_RESAMPLER_MIN_RATIO :: double where
  "MAL_RESAMPLER_MIN_RATIO = double_of_real (1 / 1000)"

definition MAL_RESAMPLER_MAX_RATIO :: double where
  "MAL_RESAMPLER_MAX_RATIO = double_of_real 100"

datatype mal_resampler_algorithm =
  mal_resampler_algorithm_sinc | mal_resampler_algorithm_linear

datatype mal_resampler_end_of_input_mode =
  mal_resampler_end_of_input_mode_consume | mal_resampler_end_of_input_mode_no_consume

text \<open>
  Function pointers. The client's callback is known by its address only. A back-end
  pointer holds the address of one of the back-end functions of the file.
\<close>

type_synonym mal_resampler_read_from_client_proc = nat

datatype mal_resampler_init_proc = addr_init__sinc
datatype mal_resampler_read_proc = addr_read__linear | addr_read__sinc
datatype mal_resampler_seek_proc = addr_seek__linear | addr_seek__sinc

record mal_resampler_config =
  format :: mal_format
  channels :: "32 word"
  sampleRateIn :: "32 word"
  sampleRateOut :: "32 word"
  ratio :: double
  algorithm :: mal_resampler_algorithm
  endOfInputMode :: mal_resampler_end_of_input_mode
  onRead :: "mal_resampler_read_from_client_proc option"
  pUserData :: "nat option"

record mal_resampler =
  cache :: "8 word list"
  firstCachedFrameOffset :: "16 word"
  cacheLengthInFrames :: "16 word"
  windowLength :: "16 word"
  windowTime :: double
  config :: mal_resampler_config
  init :: "mal_resampler_init_proc option"
  read :: "mal_resampler_read_proc option"
  seek :: "mal_resampler_seek_proc option"

text \<open>
  The state a call works on: the object behind the \<open>pResampler\<close> argument (\<open>None\<close>
  when the argument is \<open>NULL\<close>) and the log of the calls made to the client's
  \<open>onRead\<close>, one entry (the frame count asked for) per call. A call returns its C
  result, or the fault that ended it, together with the state it leaves.
\<close>

record state =
  pointee :: "mal_resampler option"
  client_reads :: "32 word list"

type_synonym 'a outcome = "(fault + 'a) \<times> state"

subsection \<open>Construction\<close>

definition zero_config :: mal_resampler_config where
  "zero_config = \<lparr> format = mal_format_unknown, channels = 0, sampleRateIn = 0,
     sampleRateOut = 0, ratio = Finite 0, algorithm = mal_resampler_algorithm_sinc,
     endOfInputMode = mal_resampler_end_of_input_mode_consume, onRead = None,
     pUserData = None \<rparr>"

definition mal_zero_object :: mal_resampler where
  "mal_zero_object = \<lparr> cache = replicate MAL_RESAMPLER_CACHE_SIZE_IN_BYTES 0,
     firstCachedFrameOffset = 0, cacheLengthInFrames = 0, windowLength = 0,
     windowTime = Finite 0, config = zero_config, init = None, read = None, seek = None \<rparr>"

definition mal_resampler_init__sinc :: "state \<Rightarrow> mal_result outcome" where
  "mal_resampler_init__sinc s =
     (if pointee s = None then (Inl Assertion_failed, s)
      else (Inr MAL_SUCCESS, s))"

fun call_init_proc :: "mal_resampler_init_proc \<Rightarrow> state \<Rightarrow> mal_result outcome" where
  "call_init_proc addr_init__sinc s = mal_resampler_init__sinc s"

definition mal_resampler_init ::
  "mal_resampler_config option \<Rightarrow> state \<Rightarrow> mal_result outcome" where
  "mal_resampler_init pConfig s =
     (if pointee s = None then (Inr MAL_INVALID_ARGS, s)
      else
        let r0 = mal_zero_object in
        case pConfig of
          None \<Rightarrow> (Inr MAL_INVALID_ARGS, s\<lparr>pointee := Some r0\<rparr>)
        | Some cfg \<Rightarrow>
            let r1 = r0\<lparr>config := cfg\<rparr> in
            if format (config r1) \<noteq> mal_format_f32 \<and> format (config r1) \<noteq> mal_format_s16
            then (Inr MAL_INVALID_ARGS, s\<lparr>pointee := Some r1\<rparr>)
            else if channels (config r1) = 0
            then (Inr MAL_INVALID_ARGS, s\<lparr>pointee := Some r1\<rparr>)
            else if double_eq (ratio (config r1)) (Finite 0)
                    \<and> (sampleRateIn (config r1) = 0 \<or> sampleRateOut (config r1) = 0)
            then (Inr MAL_INVALID_ARGS, s\<lparr>pointee := Some r1\<rparr>)
            else
              let r2 = (if double_eq (ratio (config r1)) (Finite 0)
                        then r1\<lparr>config := (config r1)\<lparr>ratio :=
                               double_div (uint32_to_double (sampleRateIn (config r1)))
                                          (uint32_to_double (sampleRateOut (config r1)))\<rparr>\<rparr>
                        else r1) in
              if onRead (config r2) = None
              then (Inr MAL_INVALID_ARGS, s\<lparr>pointee := Some r2\<rparr>)
              else
                let r3 = (case algorithm (config r2) of
                            mal_resampler_algorithm_linear \<Rightarrow>
                              r2\<lparr>init := None\<rparr>\<lparr>read := Some addr_read__linear\<rparr>
                                \<lparr>seek := Some addr_seek__linear\<rparr>
                          | mal_resampler_algorithm_sinc \<Rightarrow>
                              r2\<lparr>init := Some addr_init__sinc\<rparr>\<lparr>read := Some addr_read__sinc\<rparr>
                                \<lparr>seek := Some addr_seek__sinc\<rparr>) in
                (case init r3 of
                   None \<Rightarrow> (Inr MAL_SUCCESS, s\<lparr>pointee := Some r3\<rparr>)
                 | Some f \<Rightarrow>
                     (case call_init_proc f (s\<lparr>pointee := Some r3\<rparr>) of
                        (Inr MAL_SUCCESS, s') \<Rightarrow> (Inr MAL_SUCCESS, s')
                      | (result, s') \<Rightarrow> (result, s'))))"

definition mal_resampler_uninit :: "state \<Rightarrow> unit outcome" where
  "mal_resampler_uninit s = (Inr (), s)"

subsection \<open>Rate control\<close>

definition mal_resampler_set_rate ::
  "state \<Rightarrow> 32 word \<Rightarrow> 32 word \<Rightarrow> mal_result outcome" where
  "mal_resampler_set_rate s sampleRateIn' sampleRateOut' =
     (case pointee s of
        None \<Rightarrow> (Inr MAL_INVALID_ARGS, s)
      | Some r \<Rightarrow>
          if sampleRateIn' = 0 \<or> sampleRateOut' = 0 then (Inr MAL_INVALID_ARGS, s)
          else
            let ratio' = double_div (uint32_to_double (sampleRateIn (config r)))
                                    (uint32_to_double (sampleRateOut (config r))) in
            if double_less ratio' MAL_RESAMPLER_MIN_RATIO
               \<or> double_greater ratio' MAL_RESAMPLER_MAX_RATIO
            then (Inr MAL_INVALID_ARGS, s)
            else (Inr MAL_SUCCESS,
                  s\<lparr>pointee := Some (r\<lparr>config := (config r)
                      \<lparr>sampleRateIn := sampleRateIn'\<rparr>
                      \<lparr>sampleRateOut := sampleRateOut'\<rparr>
                      \<lparr>ratio := ratio'\<rparr>\<rparr>)\<rparr>))"

definition mal_resampler_set_rate_ratio :: "state \<Rightarrow> double \<Rightarrow> mal_result outcome" where
  "mal_resampler_set_rate_ratio s ratio' =
     (case pointee s of
        None \<Rightarrow> (Inr MAL_INVALID_ARGS, s)
      | Some r \<Rightarrow>
          if double_less ratio' MAL_RESAMPLER_MIN_RATIO
             \<or> double_greater ratio' MAL_RESAMPLER_MAX_RATIO
          then (Inr MAL_INVALID_ARGS, s)
          else (Inr MAL_SUCCESS,
                s\<lparr>pointee := Some (r\<lparr>config := (config r)\<lparr>ratio := ratio'\<rparr>\<rparr>)\<rparr>))"

subsection \<open>The back ends\<close>

text \<open>
  Both algorithms are left to be implemented: after their assertions each back end
  returns 0. None writes to the object, and none calls \<open>onRead\<close>.
\<close>

definition mal_resampler_read__linear ::
  "state \<Rightarrow> 64 word \<Rightarrow> nat option \<Rightarrow> 64 word outcome" where
  "mal_resampler_read__linear s frameCount ppFrames =
     (case pointee s of
        None \<Rightarrow> (Inl Assertion_failed, s)
      | Some r \<Rightarrow>
          if onRead (config r) = None then (Inl Assertion_failed, s)
          else if \<not> frameCount > 0 then (Inl Assertion_failed, s)
          else if ppFrames = None then (Inl Assertion_failed, s)
          else (Inr 0, s))"

definition mal_resampler_seek__linear ::
  "state \<Rightarrow> 64 word \<Rightarrow> 32 word \<Rightarrow> 64 word outcome" where
  "mal_resampler_seek__linear s frameCount options =
     (case pointee s of
        None \<Rightarrow> (Inl Assertion_failed, s)
      | Some r \<Rightarrow>
          if onRead (config r) = None then (Inl Assertion_failed, s)
          else if \<not> frameCount > 0 then (Inl Assertion_failed, s)
          else (Inr 0, s))"

definition mal_resampler_read__sinc ::
  "state \<Rightarrow> 64 word \<Rightarrow> nat option \<Rightarrow> 64 word outcome" where
  "mal_resampler_read__sinc s frameCount ppFrames =
     (case pointee s of
        None \<Rightarrow> (Inl Assertion_failed, s)
      | Some r \<Rightarrow>
          if onRead (config r) = None then (Inl Assertion_failed, s)
          else if \<not> frameCount > 0 then (Inl Assertion_failed, s)
          else if ppFrames = None then (Inl Assertion_failed, s)
          else (Inr 0, s))"

definition mal_resampler_seek__sinc ::
  "state \<Rightarrow> 64 word \<Rightarrow> 32 word \<Rightarrow> 64 word outcome" where
  "mal_resampler_seek__sinc s frameCount options =
     (case pointee s of
        None \<Rightarrow> (Inl Assertion_failed, s)
      | Some r \<Rightarrow>
          if onRead (config r) = None then (Inl Assertion_failed, s)
          else if \<not> frameCount > 0 then (Inl Assertion_failed, s)
          else (Inr 0, s))"

fun call_read_proc ::
  "mal_resampler_read_proc \<Rightarrow> state \<Rightarrow> 64 word \<Rightarrow> nat option \<Rightarrow> 64 word outcome" where
  "call_read_proc addr_read__linear = mal_resampler_read__linear"
| "call_read_proc addr_read__sinc = mal_resampler_read__sinc"

fun call_seek_proc ::
  "mal_resampler_seek_proc \<Rightarrow> state \<Rightarrow> 64 word \<Rightarrow> 32 word \<Rightarrow> 64 word outcome" where
  "call_seek_proc addr_seek__linear = mal_resampler_seek__linear"
| "call_seek_proc addr_seek__sinc = mal_resampler_seek__sinc"

subsection \<open>Reading and seeking\<close>

definition mal_resampler_seek ::
  "state \<Rightarrow> 64 word \<Rightarrow> 32 word \<Rightarrow> 64 word outcome" where
  "mal_resampler_seek s frameCount options =
     (case pointee s of
        None \<Rightarrow> (Inr 0, s)
      | Some r \<Rightarrow>
          (case seek r of
             None \<Rightarrow> (Inr 0, s)
           | Some f \<Rightarrow>
               if frameCount = 0 then (Inr 0, s)
               else call_seek_proc f s frameCount options))"

definition mal_resampler_read ::
  "state \<Rightarrow> 64 word \<Rightarrow> nat option \<Rightarrow> 64 word outcome" where
  "mal_resampler_read s frameCount ppFrames =
     (case pointee s of
        None \<Rightarrow> (Inr 0, s)
      | Some r \<Rightarrow>
          (case read r of
             None \<Rightarrow> (Inr 0, s)
           | Some f \<Rightarrow>
               if frameCount = 0 then (Inr 0, s)
               else if ppFrames = None then mal_resampler_seek s frameCount 0
               else call_read_proc f s frameCount ppFrames))"

subsection \<open>Cache queries\<close>

definition mal_resampler__calculate_cached_input_time :: "mal_resampler \<Rightarrow> double" where
  "mal_resampler__calculate_cached_input_time r =
     (let cachedInputTime = uint16_to_double (cacheLengthInFrames r) in
      if endOfInputMode (config r) = mal_resampler_end_of_input_mode_consume
      then double_sub cachedInputTime
             (double_add (windowTime r) (int_to_double (drop_bit 1 (uint (windowLength r)))))
      else double_sub cachedInputTime
             (double_add (windowTime r) (int_to_double (uint (windowLength r)))))"

definition mal_resampler_get_cached_input_time :: "state \<Rightarrow> double outcome" where
  "mal_resampler_get_cached_input_time s =
     (case pointee s of
        None \<Rightarrow> (Inr (Finite 0), s)
      | Some r \<Rightarrow> (Inr (mal_resampler__calculate_cached_input_time r), s))"

definition mal_resampler__calculate_cached_output_time :: "mal_resampler \<Rightarrow> double" where
  "mal_resampler__calculate_cached_output_time r =
     double_div (mal_resampler__calculate_cached_input_time r) (ratio (config r))"

definition mal_resampler_get_cached_output_time :: "state \<Rightarrow> double outcome" where
  "mal_resampler_get_cached_output_time s =
     (case pointee s of
        None \<Rightarrow> (Inr (Finite 0), s)
      | Some r \<Rightarrow> (Inr (mal_resampler__calculate_cached_output_time r), s))"

definition mal_resampler_get_cached_input_frame_count :: "state \<Rightarrow> 64 word outcome" where
  "mal_resampler_get_cached_input_frame_count s =
     (case mal_resampler_get_cached_input_time s of
        (Inl f, s') \<Rightarrow> (Inl f, s')
      | (Inr t, s') \<Rightarrow> (double_to_uint64 (c_ceil t), s'))"

definition mal_resampler_get_cached_output_frame_count :: "state \<Rightarrow> 64 word outcome" where
  "mal_resampler_get_cached_output_frame_count s =
     (case mal_resampler_get_cached_output_time s of
        (Inl f, s') \<Rightarrow> (Inl f, s')
      | (Inr t, s') \<Rightarrow> (double_to_uint64 (c_floor t), s'))"

definition mal_resampler_get_required_input_frame_count ::
  "state \<Rightarrow> 64 word \<Rightarrow> 64 word outcome" where
  "mal_resampler_get_required_input_frame_count s outputFrameCount =
     (case pointee s of
        None \<Rightarrow> (Inr 0, s)
      | Some r \<Rightarrow>
          if outputFrameCount = 0 then (Inr 0, s)
          else
            let cachedOutputTime = mal_resampler__calculate_cached_output_time r in
            if double_ge cachedOutputTime (uint64_to_double outputFrameCount) then (Inr 0, s)
            else
              let nonCachedOutputTime =
                    double_sub (uint64_to_double outputFrameCount) cachedOutputTime in
              if \<not> double_greater nonCachedOutputTime (Finite 0)
              then (Inl Assertion_failed, s)
              else
                (case double_to_uint64
                        (c_ceil (double_mul nonCachedOutputTime (ratio (config r)))) of
                   Inl f \<Rightarrow> (Inl f, s)
                 | Inr requiredInputFrames \<Rightarrow>
                     if \<not> requiredInputFrames > 0 then (Inl Assertion_failed, s)
                     else (Inr requiredInputFrames, s)))"

definition mal_resampler_get_expected_output_frame_count ::
  "state \<Rightarrow> 64 word \<Rightarrow> 64 word outcome" where
  "mal_resampler_get_expected_output_frame_count s inputFrameCount =
     (case pointee s of
        None \<Rightarrow> (Inr 0, s)
      | Some r \<Rightarrow>
          if inputFrameCount = 0 then (Inr 0, s)
          else
            (double_to_uint64
               (c_floor (double_div
                  (double_add (mal_resampler__calculate_cached_input_time r)
                              (uint64_to_double inputFrameCount))
                  (ratio (config r)))), s))"

subsection \<open>Notions of the specification\<close>

text \<open>
  The data-model invariants the specification names: the cache length is within the
  capacity of the 4096-byte cache for the configured format and channel count, and the
  window time is non-negative and lies within, or at the boundary of, the cached region.
  The capacities in samples are the lengths of the two arrays of the \<open>cache\<close> union.
\<close>

definition cache_capacity_in_samples :: "mal_format \<Rightarrow> nat" where
  "cache_capacity_in_samples f =
     (if f = mal_format_f32 then MAL_RESAMPLER_CACHE_SIZE_IN_BYTES div 4
      else if f = mal_format_s16 then MAL_RESAMPLER_CACHE_SIZE_IN_BYTES div 2
      else 0)"

definition spec_cache_capacity_in_frames :: "mal_resampler \<Rightarrow> nat" where
  "spec_cache_capacity_in_frames r =
     cache_capacity_in_samples (format (config r)) div unat (channels (config r))"

definition spec_data_model_invariants :: "mal_resampler \<Rightarrow> bool" where
  "spec_data_model_invariants r \<longleftrightarrow>
     unat (cacheLengthInFrames r) \<le> spec_cache_capacity_in_frames r
     \<and> is_finite (windowTime r)
     \<and> 0 \<le> valof (windowTime r)
     \<and> valof (windowTime r) \<le> real (unat (cacheLengthInFrames r))"

definition spec_ratio_in_bounds :: "mal_resampler \<Rightarrow> bool" where
  "spec_ratio_in_bounds r \<longleftrightarrow>
     double_le MAL_RESAMPLER_MIN_RATIO (ratio (config r))
     \<and> double_le (ratio (config r)) MAL_RESAMPLER_MAX_RATIO"

text \<open>
  The part of the window that the cached input time leaves out: half of it (rounded
  down) when the end of the input is consumed, all of it otherwise.
\<close>

definition spec_reserved :: "mal_resampler \<Rightarrow> nat" where
  "spec_reserved r =
     (if endOfInputMode (config r) = mal_resampler_end_of_input_mode_consume
      then unat (windowLength r) div 2 else unat (windowLength r))"

text \<open>
  Construction installs the read and the seek back end together, or neither: an object
  that went through \<open>mal_resampler_init\<close> has both pointers set or both \<open>NULL\<close>.
\<close>

definition backends_paired :: "state \<Rightarrow> bool" where
  "backends_paired s =
     (case pointee s of None \<Rightarrow> True | Some r \<Rightarrow> (read r = None) = (seek r = None))"

subsection \<open>Example objects\<close>

definition example_config :: mal_resampler_config where
  "example_config = \<lparr> format = mal_format_f32, channels = 1, sampleRateIn = 48000,
     sampleRateOut = 48000, ratio = Finite 0, algorithm = mal_resampler_algorithm_linear,
     endOfInputMode = mal_resampler_end_of_input_mode_consume, onRead = Some 7,
     pUserData = None \<rparr>"

text \<open>The object that \<open>mal_resampler_init\<close> builds from \<open>example_config\<close>.\<close>

definition example_resampler :: mal_resampler where
  "example_resampler =
     mal_zero_object\<lparr>config := example_config\<lparr>ratio := Finite 1\<rparr>\<rparr>
       \<lparr>read := Some addr_read__linear\<rparr>\<lparr>seek := Some addr_seek__linear\<rparr>"

definition example_state :: state where
  "example_state = \<lparr> pointee = Some example_resampler, client_reads = [] \<rparr>"

text \<open>The example object with a cache of \<open>n\<close> frames, a window of \<open>w\<close> frames and the
  window time \<open>t\<close>. The back ends being stubs, no call of the file fills the cache:
  these are states of the data model, as a back end that reads from the client would
  leave them.\<close>

definition cached_state :: "16 word \<Rightarrow> 16 word \<Rightarrow> double \<Rightarrow> state" where
  "cached_state n w t =
     \<lparr> pointee = Some (example_resampler\<lparr>cacheLengthInFrames := n\<rparr>
                        \<lparr>windowLength := w\<rparr>\<lparr>windowTime := t\<rparr>),
       client_reads = [] \<rparr>"

text \<open>The example object with another ratio.\<close>

definition ratio_state :: "double \<Rightarrow> state" where
  "ratio_state x =
     \<lparr> pointee = Some (example_resampler\<lparr>config := (config example_resampler)\<lparr>ratio := x\<rparr>\<rparr>),
       client_reads = [] \<rparr>"

text \<open>The double nearest to 0.1.\<close>

definition one_tenth :: double where
  "one_tenth = double_of_real (1 / 10)"

text \<open>The example object with \<open>n\<close> cached frames and another ratio.\<close>

definition cached_ratio_state :: "16 word \<Rightarrow> double \<Rightarrow> state" where
  "cached_ratio_state n x =
     \<lparr> pointee = Some (example_resampler\<lparr>cacheLengthInFrames := n\<rparr>
                        \<lparr>config := (config example_resampler)\<lparr>ratio := x\<rparr>\<rparr>),
       client_reads = [] \<rparr>"

text \<open>An object whose read pointer is \<open>NULL\<close> while its seek pointer is set, and whose
  configuration has no callback; \<open>mal_resampler_init\<close> never leaves such an object.\<close>

definition unpaired_state :: state where
  "unpaired_state =
     \<lparr> pointee = Some (mal_zero_object\<lparr>seek := Some addr_seek__linear\<rparr>), client_reads = [] \<rparr>"

section \<open>Properties\<close>

subsection \<open>Rounding to binary64\<close>

text \<open>The exponent that rounding picks is that of the binade of its argument.\<close>

lemma exponent_ge: "- 1074 \<le> exponent x"
  by (simp add: exponent_def)

lemma exponent_upper: "\<bar>x\<bar> < 2 powi (exponent x + 53)"
proof -
  let ?N = "\<lfloor>\<bar>x\<bar> * 2 ^ 1074\<rfloor>"
  have N0: "0 \<le> ?N" by simp
  have "\<bar>x\<bar> * 2 ^ 1074 < 2 powi (bitlen ?N)"
  proof (cases "?N = 0")
    case True
    then have "\<bar>x\<bar> * 2 ^ 1074 < 1" by linarith
    then show ?thesis using True by simp
  next
    case False
    then have pos: "0 < ?N" using N0 by linarith
    from bitlen_bounds [OF pos] have "?N < 2 ^ nat (bitlen ?N)" by simp
    then have "\<bar>x\<bar> * 2 ^ 1074 < 2 ^ nat (bitlen ?N)"
      by (metis floor_less_iff of_int_numeral of_int_power)
    then show ?thesis
      using bitlen_nonneg [of ?N] by (simp add: power_int_def)
  qed
  also have "\<dots> \<le> 2 powi (exponent x + 1127)"
    by (rule power_int_increasing) (simp_all add: exponent_def)
  finally have "\<bar>x\<bar> * 2 powi 1074 < 2 powi (exponent x + 1127)" by simp
  then have "\<bar>x\<bar> < 2 powi (exponent x + 1127) / 2 powi 1074"
    by (simp add: field_simps)
  also have "\<dots> = 2 powi (exponent x + 1127 - 1074)"
    by (subst power_int_diff) simp_all
  finally show ?thesis by (simp add: algebra_simps)
qed

lemma exponent_lower:
  assumes "- 1074 < exponent x"
  shows "2 powi (exponent x + 52) \<le> \<bar>x\<bar>"
proof -
  let ?N = "\<lfloor>\<bar>x\<bar> * 2 ^ 1074\<rfloor>"
  from assms have e: "exponent x = bitlen ?N - 1127" and big: "53 < bitlen ?N"
    by (auto simp: exponent_def max_def split: if_splits)
  then have pos: "0 < ?N"
    using bitlen_eq_zero_iff [of ?N] bitlen_nonneg [of ?N]
    by (metis bitlen_alt_def not_less_iff_gr_or_eq less_trans zero_less_numeral)
  from bitlen_bounds [OF pos] have "2 ^ nat (bitlen ?N - 1) \<le> ?N" by simp
  then have "(2::real) ^ nat (bitlen ?N - 1) \<le> of_int ?N"
    by (metis of_int_le_iff of_int_numeral of_int_power)
  also have "\<dots> \<le> \<bar>x\<bar> * 2 ^ 1074" by simp
  finally have "2 powi (bitlen ?N - 1) \<le> \<bar>x\<bar> * 2 powi 1074"
    using big by (simp add: power_int_def)
  then have "2 powi (bitlen ?N - 1) / 2 powi 1074 \<le> \<bar>x\<bar>"
    by (simp add: field_simps)
  moreover have "2 powi (bitlen ?N - 1) / 2 powi 1074 = (2::real) powi (bitlen ?N - 1 - 1074)"
    by (subst power_int_diff) simp_all
  ultimately show ?thesis by (simp add: e algebra_simps)
qed


text \<open>Rounding to an integer, ties to even, stays between the integers around its
  argument.\<close>

lemma round_half_even_of_int: "round_half_even (of_int k) = k"
  by (simp add: round_half_even_def)

lemma round_half_even_ge:
  assumes "of_int k \<le> z"
  shows "k \<le> round_half_even z"
proof -
  from assms have "k \<le> \<lfloor>z\<rfloor>" by (simp add: le_floor_iff)
  then show ?thesis
    by (auto simp: round_half_even_def Let_def)
qed

lemma round_half_even_le:
  assumes "z \<le> of_int k"
  shows "round_half_even z \<le> k"
proof (cases "z = of_int \<lfloor>z\<rfloor>")
  case True
  then have "round_half_even z = \<lfloor>z\<rfloor>"
    by (simp add: round_half_even_def Let_def)
  moreover from True assms have "\<lfloor>z\<rfloor> \<le> k" by linarith
  ultimately show ?thesis by simp
next
  case False
  moreover have "of_int \<lfloor>z\<rfloor> \<le> z" by (rule of_int_floor_le)
  ultimately have "of_int \<lfloor>z\<rfloor> < z" by linarith
  with assms have "\<lfloor>z\<rfloor> < k" by linarith
  then show ?thesis
    by (auto simp: round_half_even_def Let_def)
qed

lemma binary64I:
  "\<bar>m\<bar> < 2 ^ 53 \<Longrightarrow> - 1074 \<le> e \<Longrightarrow> e \<le> 971 \<Longrightarrow> of_int m * 2 powi e \<in> binary64"
  by (auto simp: binary64_def)

lemma powi_split:
  assumes "e \<le> k"
  shows "(2::real) powi k = of_int (2 ^ nat (k - e)) * 2 powi e"
proof -
  have "(2::real) powi k = 2 powi (k - e) * 2 powi e"
    by (subst power_int_add [symmetric]) simp_all
  with assms show ?thesis by (simp add: power_int_def)
qed

text \<open>
  Rounding never crosses a representable value: a value of \<open>binary64\<close> below the
  argument is below the rounded argument, and likewise above. So rounding is exact on
  \<open>binary64\<close>.
\<close>

lemma round_binary64_ge:
  assumes d: "d \<in> binary64" and le: "d \<le> x"
  shows "d \<le> round_binary64 x"
proof -
  let ?e = "exponent x"
  let ?g = "(2::real) powi ?e"
  have g: "0 < ?g" by simp
  from d obtain m k where dm: "d = of_int m * 2 powi k" and m: "\<bar>m\<bar> < 2 ^ 53"
    and k: "- 1074 \<le> k" "k \<le> 971"
    by (auto simp: binary64_def)
  show ?thesis
  proof (cases "?e \<le> k")
    case True
    let ?K = "m * 2 ^ nat (k - ?e)"
    have dK: "d = of_int ?K * ?g"
      by (simp add: dm powi_split [OF True])
    with le g have "of_int ?K \<le> x / ?g"
      by (simp add: field_simps)
    then have "?K \<le> round_half_even (x / ?g)"
      by (rule round_half_even_ge)
    then have "of_int ?K * ?g \<le> of_int (round_half_even (x / ?g)) * ?g"
      using g by (simp del: of_int_mult of_int_power)
    then show ?thesis
      by (simp only: dK round_binary64_def)
  next
    case False
    then have klt: "k < ?e" by simp
    with k have "- 1074 < ?e" by simp
    then have low: "2 powi (?e + 52) \<le> \<bar>x\<bar>" by (rule exponent_lower)
    have "\<bar>d\<bar> = of_int \<bar>m\<bar> * 2 powi k"
      by (simp add: dm abs_mult)
    also have "\<dots> < 2 ^ 53 * 2 powi k"
    proof -
      from m have "real_of_int \<bar>m\<bar> < real_of_int (2 ^ 53)"
        by (simp only: of_int_less_iff)
      then show ?thesis
        by (intro mult_strict_right_mono) simp_all
    qed
    also have "\<dots> = 2 powi (53 + k)"
      by (subst power_int_add) simp_all
    also have "\<dots> \<le> 2 powi (?e + 52)"
      by (rule power_int_increasing) (use klt in simp_all)
    finally have dlt: "\<bar>d\<bar> < 2 powi (?e + 52)" .
    have xpos: "0 < x"
    proof (rule ccontr)
      assume "\<not> 0 < x"
      then have "\<bar>x\<bar> \<le> \<bar>d\<bar>" using le by simp
      with low dlt show False by simp
    qed
    have "2 powi (?e + 52) = of_int (2 ^ 52) * ?g"
      by (subst power_int_add) simp_all
    with low xpos g have "of_int (2 ^ 52) \<le> x / ?g"
      by (simp add: field_simps)
    then have "2 ^ 52 \<le> round_half_even (x / ?g)"
      by (rule round_half_even_ge)
    then have "of_int (2 ^ 52) * ?g \<le> of_int (round_half_even (x / ?g)) * ?g"
      using g by (simp del: of_int_mult of_int_power)
    then have "2 powi (?e + 52) \<le> round_binary64 x"
      by (simp add: round_binary64_def \<open>2 powi (?e + 52) = of_int (2 ^ 52) * ?g\<close>)
    with dlt show ?thesis by simp
  qed
qed

lemma round_binary64_le:
  assumes d: "d \<in> binary64" and le: "x \<le> d"
  shows "round_binary64 x \<le> d"
proof -
  let ?e = "exponent x"
  let ?g = "(2::real) powi ?e"
  have g: "0 < ?g" by simp
  from d obtain m k where dm: "d = of_int m * 2 powi k" and m: "\<bar>m\<bar> < 2 ^ 53"
    and k: "- 1074 \<le> k" "k \<le> 971"
    by (auto simp: binary64_def)
  show ?thesis
  proof (cases "?e \<le> k")
    case True
    let ?K = "m * 2 ^ nat (k - ?e)"
    have dK: "d = of_int ?K * ?g"
      by (simp add: dm powi_split [OF True])
    with le g have "x / ?g \<le> of_int ?K"
      by (simp add: field_simps)
    then have "round_half_even (x / ?g) \<le> ?K"
      by (rule round_half_even_le)
    then have "of_int (round_half_even (x / ?g)) * ?g \<le> of_int ?K * ?g"
      using g by (simp del: of_int_mult of_int_power)
    then show ?thesis
      by (simp only: dK round_binary64_def)
  next
    case False
    then have klt: "k < ?e" by simp
    with k have "- 1074 < ?e" by simp
    then have low: "2 powi (?e + 52) \<le> \<bar>x\<bar>" by (rule exponent_lower)
    have "\<bar>d\<bar> = of_int \<bar>m\<bar> * 2 powi k"
      by (simp add: dm abs_mult)
    also have "\<dots> < 2 ^ 53 * 2 powi k"
    proof -
      from m have "real_of_int \<bar>m\<bar> < real_of_int (2 ^ 53)"
        by (simp only: of_int_less_iff)
      then show ?thesis
        by (intro mult_strict_right_mono) simp_all
    qed
    also have "\<dots> = 2 powi (53 + k)"
      by (subst power_int_add) simp_all
    also have "\<dots> \<le> 2 powi (?e + 52)"
      by (rule power_int_increasing) (use klt in simp_all)
    finally have dlt: "\<bar>d\<bar> < 2 powi (?e + 52)" .
    have xneg: "x < 0"
    proof (rule ccontr)
      assume "\<not> x < 0"
      then have "\<bar>x\<bar> \<le> \<bar>d\<bar>" using le by simp
      with low dlt show False by simp
    qed
    have eq: "- (2 powi (?e + 52)) = of_int (- (2 ^ 52)) * ?g"
      by (subst power_int_add) simp_all
    with low xneg g have "x / ?g \<le> of_int (- (2 ^ 52))"
      by (simp add: field_simps)
    then have "round_half_even (x / ?g) \<le> - (2 ^ 52)"
      by (rule round_half_even_le)
    then have "of_int (round_half_even (x / ?g)) * ?g \<le> of_int (- (2 ^ 52)) * ?g"
      using g by (simp del: of_int_mult of_int_power of_int_minus)
    then have "round_binary64 x \<le> - (2 powi (?e + 52))"
      by (simp only: round_binary64_def eq)
    with dlt show ?thesis by simp
  qed
qed

lemma round_binary64_exact: "x \<in> binary64 \<Longrightarrow> round_binary64 x = x"
  by (rule antisym) (auto intro: round_binary64_le round_binary64_ge)


lemma two_powi_less_cancel: "(2::real) powi a < 2 powi b \<Longrightarrow> a < b"
proof (rule ccontr)
  assume lt: "(2::real) powi a < 2 powi b" and "\<not> a < b"
  then have "b \<le> a" by simp
  then have "(2::real) powi b \<le> 2 powi a"
    by (rule power_int_increasing) simp
  with lt show False by simp
qed

lemma exponent_eqI:
  assumes lo: "2 powi k \<le> \<bar>x\<bar>" and hi: "\<bar>x\<bar> < 2 powi (k + 1)" and k: "- 1022 \<le> k"
  shows "exponent x = k - 52"
proof -
  have "(2::real) powi k < 2 powi (exponent x + 53)"
    using lo exponent_upper [of x] by (rule le_less_trans)
  then have ge: "k - 52 \<le> exponent x"
    using two_powi_less_cancel by fastforce
  show ?thesis
  proof (cases "- 1074 < exponent x")
    case True
    then have "2 powi (exponent x + 52) \<le> \<bar>x\<bar>" by (rule exponent_lower)
    with hi have "(2::real) powi (exponent x + 52) < 2 powi (k + 1)"
      by linarith
    then have "exponent x + 52 < k + 1" by (rule two_powi_less_cancel)
    with ge show ?thesis by simp
  next
    case False
    with exponent_ge [of x] have "exponent x = - 1074" by simp
    with ge k show ?thesis by simp
  qed
qed

lemma exponent_subnormal:
  assumes "\<bar>x\<bar> < 2 powi (- 1022)"
  shows "exponent x = - 1074"
proof (rule ccontr)
  assume "exponent x \<noteq> - 1074"
  with exponent_ge [of x] have gt: "- 1074 < exponent x" by simp
  then have "2 powi (exponent x + 52) \<le> \<bar>x\<bar>" by (rule exponent_lower)
  with assms have "(2::real) powi (exponent x + 52) < 2 powi (- 1022)"
    by linarith
  then have "exponent x + 52 < - 1022" by (rule two_powi_less_cancel)
  with gt show False by simp
qed



lemma binary64_less_max: "x \<in> binary64 \<Longrightarrow> \<bar>x\<bar> < 2 ^ 1024"
proof -
  assume "x \<in> binary64"
  then obtain m e where x: "x = of_int m * 2 powi e" and m: "\<bar>m\<bar> < 2 ^ 53" and e: "e \<le> 971"
    by (auto simp: binary64_def)
  from m have "real_of_int \<bar>m\<bar> < real_of_int (2 ^ 53)"
    by (simp only: of_int_less_iff)
  then have "of_int \<bar>m\<bar> * 2 powi e < (2::real) ^ 53 * 2 powi e"
    by (intro mult_strict_right_mono) simp_all
  also have "\<dots> \<le> 2 ^ 53 * 2 powi 971"
    using e by (intro mult_left_mono power_int_increasing) simp_all
  finally show ?thesis by (simp add: x abs_mult)
qed

lemma int_in_binary64:
  assumes "\<bar>k\<bar> \<le> 2 ^ 53"
  shows "of_int k \<in> binary64"
proof (cases "\<bar>k\<bar> < 2 ^ 53")
  case True
  then have "of_int k * 2 powi 0 \<in> binary64" by (intro binary64I) simp_all
  then show ?thesis by simp
next
  case False
  with assms have "k = 2 ^ 53 \<or> k = - (2 ^ 53)" by linarith
  moreover have "of_int (2 ^ 52) * 2 powi 1 \<in> binary64" "of_int (- (2 ^ 52)) * 2 powi 1 \<in> binary64"
    by (intro binary64I; simp)+
  ultimately show ?thesis by auto
qed

lemma round_binary64_eval:
  assumes "2 powi k \<le> \<bar>x\<bar>" and "\<bar>x\<bar> < 2 powi (k + 1)" and "- 1022 \<le> k"
  shows "round_binary64 x = of_int (round_half_even (x / 2 powi (k - 52))) * 2 powi (k - 52)"
  by (simp add: round_binary64_def exponent_eqI [OF assms])

text \<open>Values of \<open>binary64\<close> of magnitude at least \<open>2 ^ j\<close> are multiples of
  \<open>2 ^ (j - 52)\<close>.\<close>

lemma binary64_grid:
  assumes "d \<in> binary64" and "2 powi j \<le> \<bar>d\<bar>"
  shows "\<exists>K. d = of_int K * 2 powi (j - 52)"
proof -
  from assms(1) obtain m k where d: "d = of_int m * 2 powi k" and m: "\<bar>m\<bar> < 2 ^ 53"
    by (auto simp: binary64_def)
  from m have "real_of_int \<bar>m\<bar> < real_of_int (2 ^ 53)"
    by (simp only: of_int_less_iff)
  then have "of_int \<bar>m\<bar> * 2 powi k < (2::real) ^ 53 * 2 powi k"
    by (intro mult_strict_right_mono) simp_all
  also have "\<dots> = 2 powi (53 + k)"
    by (subst power_int_add) simp_all
  finally have "\<bar>d\<bar> < 2 powi (53 + k)"
    by (simp add: d abs_mult)
  with assms(2) have "(2::real) powi j < 2 powi (53 + k)" by linarith
  then have "j < 53 + k" by (rule two_powi_less_cancel)
  then have "j - 52 \<le> k" by simp
  from powi_split [OF this] have "d = of_int (m * 2 ^ nat (k - (j - 52))) * 2 powi (j - 52)"
    by (simp add: d)
  then show ?thesis ..
qed

text \<open>
  The rounding is to the nearest: no integer is nearer to \<open>z\<close> than its rounding, and
  no value of \<open>binary64\<close> is nearer to \<open>x\<close> than its rounding (which is itself in
  \<open>binary64\<close>, or of magnitude at least 2^1024, where \<open>double_of_real\<close> returns an
  infinity). A tie goes to the even multiple.
\<close>

lemma round_half_even_nearest: "\<bar>z - of_int (round_half_even z)\<bar> \<le> \<bar>z - of_int k\<bar>"
proof -
  let ?n = "\<lfloor>z\<rfloor>"
  have fl: "of_int ?n \<le> z" "z < of_int ?n + 1" by linarith+
  consider "k \<le> ?n" | "?n + 1 \<le> k" by linarith
  then show ?thesis
  proof cases
    case 1
    then have "real_of_int k \<le> of_int ?n" by (simp only: of_int_le_iff)
    with fl show ?thesis
      by (auto simp: round_half_even_def Let_def)
  next
    case 2
    then have "real_of_int (?n + 1) \<le> of_int k" by (simp only: of_int_le_iff)
    then have "of_int ?n + 1 \<le> real_of_int k" by simp
    with fl show ?thesis
      by (auto simp: round_half_even_def Let_def)
  qed
qed

lemma round_binary64_nearest:
  assumes d: "d \<in> binary64"
  shows "\<bar>x - round_binary64 x\<bar> \<le> \<bar>x - d\<bar>"
proof -
  let ?e = "exponent x"
  let ?g = "(2::real) powi ?e"
  have g: "0 < ?g" by simp
  have scale: "\<bar>x - m * ?g\<bar> = \<bar>x / ?g - m\<bar> * ?g" for m :: real
  proof -
    have "x - m * ?g = (x / ?g - m) * ?g"
      using g by (simp add: field_simps)
    then have "\<bar>x - m * ?g\<bar> = \<bar>x / ?g - m\<bar> * \<bar>?g\<bar>"
      by (simp only: abs_mult)
    with g show ?thesis by simp
  qed
  have grid: "\<bar>x - round_binary64 x\<bar> \<le> \<bar>x - of_int K * ?g\<bar>" for K
  proof -
    have "\<bar>x - round_binary64 x\<bar> = \<bar>x / ?g - of_int (round_half_even (x / ?g))\<bar> * ?g"
      unfolding round_binary64_def by (rule scale)
    also have "\<dots> \<le> \<bar>x / ?g - of_int K\<bar> * ?g"
      using g round_half_even_nearest [of "x / ?g" K] by (intro mult_right_mono) simp_all
    also have "\<dots> = \<bar>x - of_int K * ?g\<bar>"
      by (rule scale [symmetric])
    finally show ?thesis .
  qed
  show ?thesis
  proof (cases "?e = - 1074")
    case True
    from d obtain m k where dk: "d = of_int m * 2 powi k" and k: "- 1074 \<le> k"
      by (auto simp: binary64_def)
    from k True have "?e \<le> k" by simp
    from powi_split [OF this] have "d = of_int (m * 2 ^ nat (k - ?e)) * ?g"
      by (simp add: dk)
    then show ?thesis using grid by metis
  next
    case False
    with exponent_ge [of x] have "- 1074 < ?e" by simp
    then have lo: "2 powi (?e + 52) \<le> \<bar>x\<bar>" by (rule exponent_lower)
    let ?b = "(2::real) powi (?e + 52)"
    have b: "?b = of_int (2 ^ 52) * ?g"
      using powi_split [of ?e "?e + 52"] by simp
    have nb: "- ?b = of_int (- (2 ^ 52)) * ?g"
      using b by simp
    show ?thesis
    proof (cases "?b \<le> \<bar>d\<bar>")
      case True
      from binary64_grid [OF d True] obtain K where "d = of_int K * ?g" by auto
      then show ?thesis using grid by metis
    next
      case False
      then have small: "\<bar>d\<bar> < ?b" by simp
      show ?thesis
      proof (cases "0 \<le> x")
        case True
        with lo small have "\<bar>x - ?b\<bar> \<le> \<bar>x - d\<bar>" by linarith
        moreover have "\<bar>x - round_binary64 x\<bar> \<le> \<bar>x - ?b\<bar>"
          using grid [of "2 ^ 52"] by (simp only: b)
        ultimately show ?thesis by linarith
      next
        case False
        with lo small have "\<bar>x - (- ?b)\<bar> \<le> \<bar>x - d\<bar>" by linarith
        moreover have "\<bar>x - round_binary64 x\<bar> \<le> \<bar>x - (- ?b)\<bar>"
          using grid [of "- (2 ^ 52)"] by (simp only: nb)
        ultimately show ?thesis by linarith
      qed
    qed
  qed
qed

subsection \<open>Doubles\<close>

lemma double_of_real_exact:
  assumes "x \<in> binary64"
  shows "double_of_real x = Finite x"
  using binary64_less_max [OF assms]
  by (auto simp: double_of_real_def round_binary64_exact [OF assms])

lemma double_of_real_of_int:
  "\<bar>k\<bar> \<le> 2 ^ 53 \<Longrightarrow> double_of_real (of_int k) = Finite (of_int k)"
  by (rule double_of_real_exact) (rule int_in_binary64)

lemma double_of_real_of_nat:
  assumes "n \<le> 2 ^ 53"
  shows "double_of_real (real n) = Finite (real n)"
proof -
  from assms have "\<bar>int n\<bar> \<le> 2 ^ 53" by (simp add: of_nat_le_iff [of n "2 ^ 53", symmetric] del: of_nat_le_iff)
  from double_of_real_of_int [OF this] show ?thesis by simp
qed

lemma double_of_real_numeral:
  "numeral n \<le> (2 ^ 53 :: int) \<Longrightarrow> double_of_real (numeral n) = Finite (numeral n)"
  using double_of_real_of_int [of "numeral n"] by simp

lemma double_of_real_neg_numeral:
  "numeral n \<le> (2 ^ 53 :: int) \<Longrightarrow> double_of_real (- numeral n) = Finite (- numeral n)"
  using double_of_real_of_int [of "- numeral n"] by simp

lemma double_of_real_zero: "double_of_real 0 = Finite 0"
  using double_of_real_of_int [of 0] by simp

lemma double_of_real_one: "double_of_real 1 = Finite 1"
  using double_of_real_of_int [of 1] by simp

lemma double_of_real_minus_one: "double_of_real (- 1) = Finite (- 1)"
  using double_of_real_of_int [of "- 1"] by simp

lemmas double_of_real_eval = double_of_real_numeral double_of_real_neg_numeral
  double_of_real_zero double_of_real_one double_of_real_minus_one

lemma double_of_real_dyadic:
  assumes "x = of_int m * 2 powi e" "\<bar>m\<bar> < 2 ^ 53" "- 1074 \<le> e" "e \<le> 971"
  shows "double_of_real x = Finite x"
  using assms by (intro double_of_real_exact) (auto simp: binary64_def)

lemma uint16_to_double_exact: "uint16_to_double n = Finite (real (unat n))"
proof -
  have "unat n < 2 ^ 16" using unsigned_less [of n] by simp
  then have "unat n \<le> 2 ^ 53" by simp
  then show ?thesis
    unfolding uint16_to_double_def by (rule double_of_real_of_nat)
qed

lemma uint32_to_double_exact: "uint32_to_double n = Finite (real (unat n))"
proof -
  have "unat n < 2 ^ 32" using unsigned_less [of n] by simp
  then have "unat n \<le> 2 ^ 53" by simp
  then show ?thesis
    unfolding uint32_to_double_def by (rule double_of_real_of_nat)
qed

lemma int_to_double_exact: "\<bar>k\<bar> \<le> 2 ^ 53 \<Longrightarrow> int_to_double k = Finite (of_int k)"
  unfolding int_to_double_def by (rule double_of_real_of_int)

text \<open>The values of the literals.\<close>

lemma MAL_RESAMPLER_MIN_RATIO_value:
  "MAL_RESAMPLER_MIN_RATIO = Finite (1152921504606847 / 2 ^ 60)"
proof -
  have "round_binary64 (1 / 1000) = 1152921504606847 / 2 ^ 60"
    by (subst round_binary64_eval [where k = "- 10"])
       (simp_all add: round_half_even_def Let_def power_int_minus_divide)
  then show ?thesis
    by (simp add: MAL_RESAMPLER_MIN_RATIO_def double_of_real_def)
qed

lemma MAL_RESAMPLER_MAX_RATIO_value: "MAL_RESAMPLER_MAX_RATIO = Finite 100"
  by (simp add: MAL_RESAMPLER_MAX_RATIO_def double_of_real_eval)

lemma one_tenth_value: "one_tenth = Finite (3602879701896397 / 2 ^ 55)"
proof -
  have "round_binary64 (1 / 10) = 3602879701896397 / 2 ^ 55"
    by (subst round_binary64_eval [where k = "- 4"])
       (simp_all add: round_half_even_def Let_def power_int_minus_divide)
  then show ?thesis
    by (simp add: one_tenth_def double_of_real_def)
qed

lemmas ratio_bounds = MAL_RESAMPLER_MIN_RATIO_value MAL_RESAMPLER_MAX_RATIO_value

lemmas double_ops = double_add_def double_sub_def double_mul_def double_div_def
  double_eq_def double_less_def double_le_def double_greater_def double_ge_def
  is_zero_def signed_zero_def signed_infinity_def


lemma zero_in_binary64: "0 \<in> binary64"
  using int_in_binary64 [of 0] by simp



lemma double_of_real_nonneg:
  assumes "0 \<le> x"
  shows "double_of_real x = Plus_infinity \<or> (\<exists>y. double_of_real x = Finite y \<and> 0 \<le> y)"
proof -
  from assms have "0 \<le> round_binary64 x"
    by (intro round_binary64_ge zero_in_binary64)
  with assms show ?thesis
    by (auto simp: double_of_real_def Let_def)
qed

lemma double_of_real_upper:
  assumes "d \<in> binary64" "x \<le> d"
  shows "double_of_real x = Minus_infinity \<or> (double_of_real x = Minus_zero \<and> 0 \<le> d)
         \<or> (\<exists>y. double_of_real x = Finite y \<and> y \<le> d)"
proof -
  from assms have le: "round_binary64 x \<le> d" by (intro round_binary64_le)
  moreover have "d < 2 ^ 1024" using binary64_less_max [OF assms(1)] by simp
  ultimately show ?thesis
    by (auto simp: double_of_real_def Let_def)
qed

subsection \<open>Construction\<close>

lemmas example_defs = example_state_def example_resampler_def example_config_def
  mal_zero_object_def zero_config_def cached_state_def ratio_state_def unpaired_state_def
  cached_ratio_state_def

lemmas spec_invariant_defs = spec_data_model_invariants_def spec_ratio_in_bounds_def
  spec_cache_capacity_in_frames_def cache_capacity_in_samples_def
  MAL_RESAMPLER_CACHE_SIZE_IN_BYTES_def

lemmas conversions_exact = uint16_to_double_exact uint32_to_double_exact
  int_to_double_def uint64_to_double_def

text \<open>The example object is what construction makes of the example configuration.\<close>

lemma mal_resampler_init_example:
  "mal_resampler_init (Some example_config) \<lparr>pointee = Some r, client_reads = []\<rparr>
     = (Inr MAL_SUCCESS, example_state)"
  by (simp add: mal_resampler_init_def example_defs conversions_exact double_ops
        double_of_real_eval Let_def)

text \<open>
  Whatever it is given, construction leaves the read and the seek pointer both set or
  both \<open>NULL\<close>, and the rate setters do not touch them.
\<close>

lemma mal_resampler_init_backends_paired:
  "backends_paired (snd (mal_resampler_init pConfig s))"
  by (auto simp: mal_resampler_init_def backends_paired_def mal_zero_object_def Let_def
        mal_resampler_init__sinc_def
      split: option.splits mal_resampler_algorithm.splits mal_resampler_init_proc.splits
        prod.splits sum.splits mal_result.splits)

lemma set_rate_backends_paired:
  "backends_paired s \<Longrightarrow> backends_paired (snd (mal_resampler_set_rate s a b))"
  by (auto simp: mal_resampler_set_rate_def backends_paired_def Let_def split: option.splits)

lemma set_rate_ratio_backends_paired:
  "backends_paired s \<Longrightarrow> backends_paired (snd (mal_resampler_set_rate_ratio s x))"
  by (auto simp: mal_resampler_set_rate_ratio_def backends_paired_def split: option.splits)

text \<open>
  Claim C2 asks construction to reject every configuration whose ratio, given or
  derived from the rates, lies outside the bounds. \<open>mal_resampler_init\<close> has no bounds
  check: with the explicit ratio 1000 it succeeds and stores 1000, and with the rates
  48000 and 1 it succeeds and stores the derived ratio 48000.
\<close>

theorem init_accepts_ratio_out_of_bounds:
  "mal_resampler_init (Some (example_config\<lparr>ratio := Finite 1000\<rparr>)) example_state
     = (Inr MAL_SUCCESS, ratio_state (Finite 1000))
   \<and> \<not> spec_ratio_in_bounds (the (pointee (ratio_state (Finite 1000))))
   \<and> mal_resampler_init (Some (example_config\<lparr>sampleRateOut := 1\<rparr>)) example_state
     = (Inr MAL_SUCCESS,
        \<lparr>pointee = Some (example_resampler\<lparr>config := example_config
            \<lparr>sampleRateOut := 1\<rparr>\<lparr>ratio := Finite 48000\<rparr>\<rparr>), client_reads = []\<rparr>)
   \<and> double_greater (Finite 48000) MAL_RESAMPLER_MAX_RATIO"
  by (simp add: mal_resampler_init_def example_defs conversions_exact double_ops
        double_of_real_eval Let_def spec_ratio_in_bounds_def ratio_bounds)

subsection \<open>Rate control\<close>

text \<open>
  Claim C1 asks \<open>set_rate\<close> to compute and check the ratio of the rates it is given.
  The function divides the rates stored in the object instead. On the example object
  (48000 to 48000) the call with 44100 and 22050 stores the ratio 1, not 2, and the call
  with 4800000 and 1, whose ratio is far above the maximum, succeeds.
\<close>

theorem set_rate_divides_stored_rates:
  "mal_resampler_set_rate example_state 44100 22050
     = (Inr MAL_SUCCESS,
        \<lparr>pointee = Some (example_resampler\<lparr>config := (config example_resampler)
            \<lparr>sampleRateIn := 44100\<rparr>\<lparr>sampleRateOut := 22050\<rparr>\<lparr>ratio := Finite 1\<rparr>\<rparr>),
         client_reads = []\<rparr>)
   \<and> double_div (uint32_to_double 44100) (uint32_to_double 22050) = Finite 2
   \<and> fst (mal_resampler_set_rate example_state 4800000 1) = Inr MAL_SUCCESS
   \<and> double_greater (double_div (uint32_to_double 4800000) (uint32_to_double 1))
        MAL_RESAMPLER_MAX_RATIO"
  by (simp add: mal_resampler_set_rate_def example_defs conversions_exact double_ops
        double_of_real_eval Let_def ratio_bounds)

text \<open>Whether \<open>set_rate\<close> accepts does not depend on the rates it is given, as long as
  neither is 0.\<close>

lemma set_rate_result_ignores_new_rates:
  assumes "a \<noteq> 0" "b \<noteq> 0" "a' \<noteq> 0" "b' \<noteq> 0"
  shows "fst (mal_resampler_set_rate s a b) = fst (mal_resampler_set_rate s a' b')"
  using assms
  by (auto simp: mal_resampler_set_rate_def Let_def split: option.splits)

text \<open>
  With stored rates of 0, which construction accepts beside an explicit ratio, the
  division is 0 / 0: the ratio is NaN, both comparisons are false, and \<open>set_rate\<close>
  stores NaN with \<open>MAL_SUCCESS\<close>.
\<close>

lemma set_rate_zero_stored_rates_example:
  "mal_resampler_init
       (Some (example_config\<lparr>sampleRateIn := 0\<rparr>\<lparr>sampleRateOut := 0\<rparr>\<lparr>ratio := Finite 2\<rparr>))
       example_state
     = (Inr MAL_SUCCESS,
        \<lparr>pointee = Some (example_resampler\<lparr>config := example_config
            \<lparr>sampleRateIn := 0\<rparr>\<lparr>sampleRateOut := 0\<rparr>\<lparr>ratio := Finite 2\<rparr>\<rparr>), client_reads = []\<rparr>)
   \<and> mal_resampler_set_rate
       \<lparr>pointee = Some (example_resampler\<lparr>config := example_config
            \<lparr>sampleRateIn := 0\<rparr>\<lparr>sampleRateOut := 0\<rparr>\<lparr>ratio := Finite 2\<rparr>\<rparr>), client_reads = []\<rparr>
       44100 22050
     = (Inr MAL_SUCCESS,
        \<lparr>pointee = Some (example_resampler\<lparr>config := example_config
            \<lparr>sampleRateIn := 44100\<rparr>\<lparr>sampleRateOut := 22050\<rparr>\<lparr>ratio := NaN\<rparr>\<rparr>),
         client_reads = []\<rparr>)"
  by (simp add: mal_resampler_init_def mal_resampler_set_rate_def example_defs
        conversions_exact double_ops double_of_real_eval Let_def)

text \<open>The objects with the extreme ratios are reached from the example object.\<close>

lemma ratio_state_reached:
  "mal_resampler_set_rate_ratio example_state (Finite 100)
     = (Inr MAL_SUCCESS, ratio_state (Finite 100))
   \<and> mal_resampler_set_rate_ratio example_state MAL_RESAMPLER_MIN_RATIO
        = (Inr MAL_SUCCESS, ratio_state MAL_RESAMPLER_MIN_RATIO)
   \<and> mal_resampler_set_rate_ratio example_state one_tenth
        = (Inr MAL_SUCCESS, ratio_state one_tenth)"
  by (simp add: mal_resampler_set_rate_ratio_def example_defs ratio_bounds double_ops
        one_tenth_value)

text \<open>A negative ratio is reached through construction, which does not check it.\<close>

lemma negative_ratio_state_reached:
  "mal_resampler_init (Some (example_config\<lparr>ratio := Finite (- 1)\<rparr>)) example_state
     = (Inr MAL_SUCCESS, ratio_state (Finite (- 1)))"
  by (simp add: mal_resampler_init_def example_defs double_ops Let_def)

text \<open>
  Claim C8 asks \<open>set_rate_ratio\<close> to reject every ratio outside the bounds and to leave
  the state unchanged then. The check is \<open>ratio < MIN || ratio > MAX\<close>, and both
  comparisons are false for NaN: the call with NaN returns \<open>MAL_SUCCESS\<close> and stores
  NaN, a ratio that is not within the bounds. In the state it leaves, the first
  assertion of \<open>get_required_input_frame_count\<close> fails.
\<close>

theorem set_rate_ratio_accepts_nan:
  "mal_resampler_set_rate_ratio example_state NaN = (Inr MAL_SUCCESS, ratio_state NaN)
   \<and> ratio_state NaN \<noteq> example_state
   \<and> \<not> spec_ratio_in_bounds (the (pointee (ratio_state NaN)))
   \<and> mal_resampler_get_required_input_frame_count (ratio_state NaN) 1
        = (Inl Assertion_failed, ratio_state NaN)"
  by (simp add: mal_resampler_set_rate_ratio_def example_defs double_ops
        spec_ratio_in_bounds_def mal_resampler_get_required_input_frame_count_def
        mal_resampler__calculate_cached_output_time_def)

text \<open>
  For every other ratio the function does what the claim says. On every object, a ratio
  that compares below the minimum or above the maximum is rejected with
  \<open>MAL_INVALID_ARGS\<close> and the whole state stays as it was; a ratio within the bounds
  is accepted with \<open>MAL_SUCCESS\<close> and nothing but \<open>config.ratio\<close> changes, which
  becomes the given value. A ratio that is not NaN is of one kind or the other.
\<close>

theorem set_rate_ratio_bounds:
  assumes "pointee s = Some r"
  shows "(double_less x MAL_RESAMPLER_MIN_RATIO \<or> double_greater x MAL_RESAMPLER_MAX_RATIO \<longrightarrow>
            mal_resampler_set_rate_ratio s x = (Inr MAL_INVALID_ARGS, s))
       \<and> (double_le MAL_RESAMPLER_MIN_RATIO x \<and> double_le x MAL_RESAMPLER_MAX_RATIO \<longrightarrow>
            mal_resampler_set_rate_ratio s x
              = (Inr MAL_SUCCESS,
                 s\<lparr>pointee := Some (r\<lparr>config := (config r)\<lparr>ratio := x\<rparr>\<rparr>)\<rparr>))"
  using assms
  by (auto simp: mal_resampler_set_rate_ratio_def double_ops split: if_splits)

theorem set_rate_ratio_bounds_witness:
  "pointee example_state = Some example_resampler
   \<and> mal_resampler_set_rate_ratio example_state (Finite 1000)
        = (Inr MAL_INVALID_ARGS, example_state)
   \<and> mal_resampler_set_rate_ratio example_state (Finite (1 / 2048))
        = (Inr MAL_INVALID_ARGS, example_state)
   \<and> mal_resampler_set_rate_ratio example_state (Finite 2)
        = (Inr MAL_SUCCESS, ratio_state (Finite 2))"
proof -
  have p: "pointee example_state = Some example_resampler"
    by (simp add: example_state_def)
  have "ratio_state (Finite 2) = example_state\<lparr>pointee :=
          Some (example_resampler\<lparr>config := (config example_resampler)\<lparr>ratio := Finite 2\<rparr>\<rparr>)\<rparr>"
    by (simp add: ratio_state_def example_state_def)
  with p set_rate_ratio_bounds [OF p, of "Finite 1000"]
    set_rate_ratio_bounds [OF p, of "Finite (1 / 2048)"]
    set_rate_ratio_bounds [OF p, of "Finite 2"]
  show ?thesis by (simp add: ratio_bounds double_ops)
qed

lemma ratio_inside_or_outside:
  assumes "\<not> is_nan x"
  shows "(double_less x MAL_RESAMPLER_MIN_RATIO \<or> double_greater x MAL_RESAMPLER_MAX_RATIO)
         = (\<not> (double_le MAL_RESAMPLER_MIN_RATIO x \<and> double_le x MAL_RESAMPLER_MAX_RATIO))"
  using assms by (cases x) (auto simp: double_ops ratio_bounds)

subsection \<open>Reading and seeking\<close>

text \<open>
  Claim C9: with a frame count of 0, \<open>read\<close> and \<open>seek\<close> return 0, whatever the object,
  the buffer and the options; the state, which holds the object and the log of the calls
  to the client's callback, is the one the call started from.
\<close>

theorem read_seek_zero_frames:
  "mal_resampler_read s 0 ppFrames = (Inr 0, s)
   \<and> mal_resampler_seek s 0 options = (Inr 0, s)"
  by (simp add: mal_resampler_read_def mal_resampler_seek_def split: option.splits)

text \<open>The back ends, and with them \<open>read\<close> and \<open>seek\<close>, leave the state as it is.\<close>

lemma call_seek_proc_state: "snd (call_seek_proc f s n opts) = s"
  by (cases f) (simp_all add: mal_resampler_seek__linear_def mal_resampler_seek__sinc_def
      split: option.splits)

lemma call_read_proc_state: "snd (call_read_proc f s n pp) = s"
  by (cases f) (simp_all add: mal_resampler_read__linear_def mal_resampler_read__sinc_def
      split: option.splits)

lemma mal_resampler_seek_state: "snd (mal_resampler_seek s n opts) = s"
  by (simp add: mal_resampler_seek_def call_seek_proc_state split: option.splits)

lemma mal_resampler_read_state: "snd (mal_resampler_read s n pp) = s"
  by (simp add: mal_resampler_read_def call_read_proc_state mal_resampler_seek_state
      split: option.splits)

text \<open>
  Claim C5: on every object whose back-end pointers are as construction leaves them
  (both set or both \<open>NULL\<close>), and also for the \<open>NULL\<close> object, \<open>read\<close> without an
  output buffer is \<open>seek\<close> with the same frame count and the options 0: the same
  result, or the same fault, and the same state, which holds the object and the log of
  the calls to the client.
\<close>

theorem read_without_buffer_is_seek:
  assumes "backends_paired s"
  shows "mal_resampler_read s frameCount None = mal_resampler_seek s frameCount 0"
  using assms
  by (auto simp: mal_resampler_read_def mal_resampler_seek_def backends_paired_def
      split: option.splits)

theorem read_without_buffer_is_seek_witness:
  "backends_paired example_state
   \<and> mal_resampler_read example_state 3 None = mal_resampler_seek example_state 3 0
   \<and> mal_resampler_seek example_state 3 0 = (Inr 0, example_state)"
proof -
  have h: "backends_paired example_state"
    by (simp add: backends_paired_def example_defs)
  have "mal_resampler_seek example_state 3 0 = (Inr 0, example_state)"
    by (simp add: mal_resampler_seek_def mal_resampler_seek__linear_def example_defs)
  with h read_without_buffer_is_seek [OF h, of 3] show ?thesis by simp
qed

text \<open>
  The pairing matters: \<open>read\<close> looks at the read pointer before it hands over to
  \<open>seek\<close>. On an object with a seek back end but no read back end (and no callback),
  which construction never produces, \<open>read\<close> returns 0 where \<open>seek\<close> runs into the
  assertion of its back end.
\<close>

lemma unpaired_read_seek_example:
  "mal_resampler_read unpaired_state 3 None = (Inr 0, unpaired_state)
   \<and> mal_resampler_seek unpaired_state 3 0 = (Inl Assertion_failed, unpaired_state)"
  by (simp add: mal_resampler_read_def mal_resampler_seek_def mal_resampler_seek__linear_def
        example_defs)

subsection \<open>Cache queries\<close>

text \<open>
  Claim C10: each of the six queries leaves the state it was called in: no field of the
  object changes and no call to the client's callback is logged, whatever the argument
  and also when the query ends in a fault.
\<close>

theorem queries_leave_state:
  "snd (mal_resampler_get_cached_input_frame_count s) = s
   \<and> snd (mal_resampler_get_cached_output_frame_count s) = s
   \<and> snd (mal_resampler_get_cached_input_time s) = s
   \<and> snd (mal_resampler_get_cached_output_time s) = s
   \<and> snd (mal_resampler_get_required_input_frame_count s outputFrameCount) = s
   \<and> snd (mal_resampler_get_expected_output_frame_count s inputFrameCount) = s"
  by (simp add: mal_resampler_get_cached_input_frame_count_def
        mal_resampler_get_cached_output_frame_count_def
        mal_resampler_get_cached_input_time_def
        mal_resampler_get_cached_output_time_def
        mal_resampler_get_required_input_frame_count_def
        mal_resampler_get_expected_output_frame_count_def Let_def
      split: option.splits sum.splits prod.splits)

text \<open>The window length and its half convert to doubles exactly.\<close>

lemma uint16_bound: "\<bar>uint (w :: 16 word)\<bar> \<le> 2 ^ 53"
proof -
  have "uint w < 2 ^ 16" using uint_lt2p [of w] by simp
  moreover have "0 \<le> uint w" by simp
  ultimately show ?thesis by simp
qed

lemma window_length_to_double:
  "int_to_double (uint (w :: 16 word)) = Finite (real (unat w))"
  using int_to_double_exact [OF uint16_bound [of w]] by simp

lemma half_window_length:
  "real_of_int (drop_bit (Suc 0) (uint (w :: 16 word))) = real (unat w div 2)"
proof -
  have "drop_bit (Suc 0) (uint w) = uint w div 2"
    by (simp add: drop_bit_eq_div)
  also have "\<dots> = int (unat w div 2)"
    by (simp add: zdiv_int)
  finally show ?thesis by simp
qed

lemma half_window_length_to_double:
  "int_to_double (drop_bit (Suc 0) (uint (w :: 16 word))) = Finite (real (unat w div 2))"
proof -
  have "0 \<le> uint w" by simp
  then have "0 \<le> uint w div 2" "uint w div 2 \<le> uint w"
    by linarith+
  with uint16_bound [of w] have "\<bar>drop_bit (Suc 0) (uint w)\<bar> \<le> 2 ^ 53"
    by (simp add: drop_bit_eq_div)
  from int_to_double_exact [OF this] show ?thesis
    by (simp only: half_window_length)
qed

text \<open>The cached input time is the cache length less the sum of the window time and the
  reserved part of the window, both operations in double arithmetic.\<close>

lemma calculate_cached_input_time_reserved:
  "mal_resampler__calculate_cached_input_time r =
     double_sub (Finite (real (unat (cacheLengthInFrames r))))
       (double_add (windowTime r) (Finite (real (spec_reserved r))))"
  by (simp add: mal_resampler__calculate_cached_input_time_def spec_reserved_def Let_def
        window_length_to_double half_window_length_to_double uint16_to_double_exact)

text \<open>A sum that is at most a representable value rounds to at most that value, and a
  difference that is not negative rounds to a double that is not negative.\<close>

lemma double_add_upper:
  assumes "is_finite a" and "valof a + x \<le> d" and "d \<in> binary64"
  shows "double_add a (Finite x) = Minus_infinity
         \<or> (is_finite (double_add a (Finite x)) \<and> valof (double_add a (Finite x)) \<le> d)"
proof (cases "valof a + x = 0")
  case True
  with assms show ?thesis
    by (cases a) (auto simp: double_add_def)
next
  case False
  from double_of_real_upper [OF assms(3) assms(2)] assms(1) False show ?thesis
    by (cases a) (auto simp: double_add_def)
qed

lemma double_sub_nonneg:
  assumes "b = Minus_infinity \<or> (is_finite b \<and> valof b \<le> c)"
  shows "double_le (Finite 0) (double_sub (Finite c) b)"
proof (cases "b = Minus_infinity")
  case True
  then show ?thesis by (simp add: double_ops)
next
  case False
  with assms have b: "is_finite b" "valof b \<le> c" by simp_all
  then have fin: "is_finite (double_neg b)" and v: "valof (double_neg b) = - valof b"
    by (cases b; simp)+
  show ?thesis
  proof (cases "c + valof (double_neg b) = 0")
    case True
    with fin show ?thesis
      by (cases "double_neg b") (auto simp: double_ops)
  next
    case nz: False
    from b v have "0 \<le> c + valof (double_neg b)" by simp
    from double_of_real_nonneg [OF this] fin nz show ?thesis
      by (cases "double_neg b") (auto simp: double_ops)
  qed
qed

text \<open>
  Claim C3 asks that the cached input time is never reported negative in a state that
  satisfies the data-model invariants. The function returns the plain difference and
  has no clamp: with 4 cached frames, a window of 4 frames and the window time 4 (at the
  boundary of the cached region) it returns -2.
\<close>

theorem cached_input_time_negative_example:
  "spec_data_model_invariants (the (pointee (cached_state 4 4 (Finite 4))))
   \<and> spec_ratio_in_bounds (the (pointee (cached_state 4 4 (Finite 4))))
   \<and> mal_resampler_get_cached_input_time (cached_state 4 4 (Finite 4))
        = (Inr (Finite (- 2)), cached_state 4 4 (Finite 4))
   \<and> double_less (Finite (- 2)) (Finite 0)"
  by (simp add: example_defs spec_invariant_defs ratio_bounds
        mal_resampler_get_cached_input_time_def mal_resampler__calculate_cached_input_time_def
        conversions_exact double_ops double_of_real_eval)

text \<open>
  Claim C3, amended: in every state in which the window time is finite and, together
  with the reserved part of the window, does not exceed the cache length,
  \<open>get_cached_input_time\<close> returns a value that is not negative.
\<close>

theorem cached_input_time_nonneg:
  assumes "pointee s = Some r"
    and "is_finite (windowTime r)"
    and "valof (windowTime r) + real (spec_reserved r) \<le> real (unat (cacheLengthInFrames r))"
  shows "\<exists>t. mal_resampler_get_cached_input_time s = (Inr t, s) \<and> double_le (Finite 0) t"
proof -
  from int_in_binary64 [OF uint16_bound [of "cacheLengthInFrames r"]]
  have d: "real (unat (cacheLengthInFrames r)) \<in> binary64" by simp
  from double_add_upper [OF assms(2) assms(3) d]
  have "double_le (Finite 0) (mal_resampler__calculate_cached_input_time r)"
    unfolding calculate_cached_input_time_reserved by (rule double_sub_nonneg)
  with assms(1) show ?thesis
    by (simp add: mal_resampler_get_cached_input_time_def)
qed

theorem cached_input_time_nonneg_witness:
  "pointee (cached_state 4 2 (Finite 1)) = Some (the (pointee (cached_state 4 2 (Finite 1))))
   \<and> is_finite (windowTime (the (pointee (cached_state 4 2 (Finite 1)))))
   \<and> valof (windowTime (the (pointee (cached_state 4 2 (Finite 1)))))
        + real (spec_reserved (the (pointee (cached_state 4 2 (Finite 1)))))
      \<le> real (unat (cacheLengthInFrames (the (pointee (cached_state 4 2 (Finite 1))))))
   \<and> (\<exists>t. mal_resampler_get_cached_input_time (cached_state 4 2 (Finite 1))
              = (Inr t, cached_state 4 2 (Finite 1)) \<and> double_le (Finite 0) t)"
proof -
  let ?s = "cached_state 4 2 (Finite 1)"
  have p: "pointee ?s = Some (the (pointee ?s))"
    by (simp add: cached_state_def)
  have f: "is_finite (windowTime (the (pointee ?s)))"
    by (simp add: example_defs)
  have h: "valof (windowTime (the (pointee ?s))) + real (spec_reserved (the (pointee ?s)))
      \<le> real (unat (cacheLengthInFrames (the (pointee ?s))))"
    by (simp add: example_defs spec_reserved_def)
  from p f h cached_input_time_nonneg [OF p f h] show ?thesis by blast
qed

text \<open>
  Claim C4 asks \<open>get_expected_output_frame_count\<close> to return the floor of
  (cached input time + input frame count) / ratio also for the input frame count 0, as
  the header describes the function: the output of the cached input together with the
  additional input frames. The function returns 0 for the count 0 before it looks at the
  cache: with 4 cached frames and the ratio 1 it returns 0, where the formula gives 4,
  in exact and in double arithmetic.
\<close>

theorem expected_output_zero_input_example:
  "spec_data_model_invariants (the (pointee (cached_state 4 0 (Finite 0))))
   \<and> spec_ratio_in_bounds (the (pointee (cached_state 4 0 (Finite 0))))
   \<and> mal_resampler_get_cached_input_time (cached_state 4 0 (Finite 0))
        = (Inr (Finite 4), cached_state 4 0 (Finite 0))
   \<and> ratio (config (the (pointee (cached_state 4 0 (Finite 0))))) = Finite 1
   \<and> mal_resampler_get_expected_output_frame_count (cached_state 4 0 (Finite 0)) 0
        = (Inr 0, cached_state 4 0 (Finite 0))
   \<and> \<lfloor>(4 + real (unat (0 :: 64 word))) / 1\<rfloor> = (4 :: int)
   \<and> double_to_uint64
        (c_floor (double_div (double_add (Finite 4) (uint64_to_double 0)) (Finite 1))) = Inr 4"
  by (simp add: example_defs spec_invariant_defs ratio_bounds
        mal_resampler_get_expected_output_frame_count_def
        mal_resampler_get_cached_input_time_def mal_resampler__calculate_cached_input_time_def
        conversions_exact double_ops double_of_real_eval double_trunc_def)

text \<open>
  For every other count the function computes the formula in double arithmetic: the
  sum, the quotient and the conversion of the input frame count are each rounded to the
  nearest double.
\<close>

lemma expected_output_frame_count_positive_input:
  assumes "pointee s = Some r"
    and "fst (mal_resampler_get_cached_input_time s) = Inr t"
    and "inputFrameCount \<noteq> 0"
  shows "mal_resampler_get_expected_output_frame_count s inputFrameCount
           = (double_to_uint64
                (c_floor (double_div (double_add t (uint64_to_double inputFrameCount))
                                     (ratio (config r)))), s)"
  using assms
  by (simp add: mal_resampler_get_expected_output_frame_count_def
        mal_resampler_get_cached_input_time_def)

lemma expected_output_frame_count_example:
  "mal_resampler_get_expected_output_frame_count (cached_state 4 0 (Finite 0)) 3
     = (Inr 7, cached_state 4 0 (Finite 0))"
  by (simp add: example_defs mal_resampler_get_expected_output_frame_count_def
        mal_resampler__calculate_cached_input_time_def
        conversions_exact double_ops double_of_real_eval double_trunc_def)

text \<open>
  The range of the result: with the ratio 2^-9 and 2^63 input frames the quotient is
  2^72, beyond \<open>mal_uint64\<close>, and the conversion is undefined.
\<close>

lemma expected_output_overflow_example:
  "spec_ratio_in_bounds (the (pointee (ratio_state (Finite (1 / 512)))))
   \<and> mal_resampler_get_expected_output_frame_count (ratio_state (Finite (1 / 512)))
        9223372036854775808
        = (Inl Undefined_conversion, ratio_state (Finite (1 / 512)))"
proof -
  have a: "double_of_real 9223372036854775808 = Finite 9223372036854775808"
    by (rule double_of_real_dyadic [where m = "2 ^ 52" and e = 11]) simp_all
  have b: "double_of_real 4722366482869645213696 = Finite 4722366482869645213696"
    by (rule double_of_real_dyadic [where m = "2 ^ 52" and e = 20]) simp_all
  show ?thesis
    by (simp add: example_defs spec_ratio_in_bounds_def ratio_bounds
          mal_resampler_get_expected_output_frame_count_def
          mal_resampler__calculate_cached_input_time_def
          conversions_exact double_ops double_of_real_eval double_trunc_def a b)
qed

subsection \<open>The required input frame count\<close>















text \<open>
  The request of 0 frames returns 0 before the cache is looked at, also when the cached
  output time is negative; and with a negative ratio, which construction accepts, the
  product is negative and its conversion undefined.
\<close>

lemma required_input_zero_request_example:
  "mal_resampler_get_cached_output_time (cached_state 4 4 (Finite 4))
     = (Inr (Finite (- 2)), cached_state 4 4 (Finite 4))
   \<and> mal_resampler_get_required_input_frame_count (cached_state 4 4 (Finite 4)) 0
        = (Inr 0, cached_state 4 4 (Finite 4))"
  by (simp add: example_defs
        mal_resampler_get_cached_output_time_def mal_resampler__calculate_cached_output_time_def
        mal_resampler__calculate_cached_input_time_def
        mal_resampler_get_required_input_frame_count_def
        conversions_exact double_ops double_of_real_eval)

lemma required_input_negative_ratio_example:
  "mal_resampler_get_required_input_frame_count (ratio_state (Finite (- 1))) 1
        = (Inl Undefined_conversion, ratio_state (Finite (- 1)))"
  by (simp add: example_defs
        mal_resampler__calculate_cached_output_time_def
        mal_resampler__calculate_cached_input_time_def
        mal_resampler_get_required_input_frame_count_def
        conversions_exact double_ops double_of_real_eval double_trunc_def ceiling_minus)

text \<open>When the cached output time is NaN (the quotient 0 / 0 of an empty cache and a zero
  ratio, say) both comparisons are false and the first assertion fails.\<close>

lemma required_input_nan_time:
  assumes "pointee s = Some r" and "outputFrameCount \<noteq> 0"
    and "mal_resampler__calculate_cached_output_time r = NaN"
  shows "mal_resampler_get_required_input_frame_count s outputFrameCount
           = (Inl Assertion_failed, s)"
  using assms
  by (simp add: mal_resampler_get_required_input_frame_count_def Let_def
        double_ge_def double_le_def double_greater_def double_less_def
        double_sub_def double_add_def)

text \<open>
  The conversion of the output frame count to \<open>double\<close> rounds to 53 bits: 2^53 + 1
  becomes 2^53, and 2^64 - 1 becomes 2^64. On the example object, whose ratio is 1 and
  whose cache is empty, the request of 2^64 - 1 frames has the product 2^64, and the
  conversion of its ceiling to \<open>mal_uint64\<close> is undefined.
\<close>

lemma uint64_to_double_rounding_example:
  "uint64_to_double 9007199254740993 = Finite 9007199254740992
   \<and> uint64_to_double 18446744073709551615 = Finite 18446744073709551616"
proof -
  have "round_binary64 9007199254740993 = 9007199254740992"
    by (subst round_binary64_eval [where k = 53])
       (simp_all add: round_half_even_def Let_def)
  moreover have "round_binary64 18446744073709551615 = 18446744073709551616"
    by (subst round_binary64_eval [where k = 63])
       (simp_all add: round_half_even_def Let_def)
  ultimately show ?thesis
    by (simp add: uint64_to_double_def double_of_real_def)
qed

lemma required_input_max_request_example:
  "mal_resampler_get_required_input_frame_count example_state 18446744073709551615
     = (Inl Undefined_conversion, example_state)"
proof -
  have n: "uint64_to_double 18446744073709551615 = Finite 18446744073709551616"
    using uint64_to_double_rounding_example by simp
  have d: "double_of_real 18446744073709551616 = Finite 18446744073709551616"
    by (rule double_of_real_dyadic [where m = "2 ^ 52" and e = 12]) simp_all
  have time: "mal_resampler__calculate_cached_output_time example_resampler = Finite 0"
    by (simp add: example_defs mal_resampler__calculate_cached_output_time_def
          mal_resampler__calculate_cached_input_time_def
          conversions_exact double_ops double_of_real_eval)
  have r: "ratio (config example_resampler) = Finite 1"
    by (simp add: example_defs)
  show ?thesis
    by (simp add: mal_resampler_get_required_input_frame_count_def example_state_def
          time n d r double_sub_def double_add_def double_mul_def is_zero_def
          double_ge_def double_le_def double_greater_def double_less_def double_trunc_def)
qed

text \<open>The quotient 1 / 0.1, with the double nearest to 0.1 (which is above 0.1) as the
  divisor, rounds to 10; and the difference 4 - 2^-60 rounds to 4.\<close>

lemma one_div_one_tenth: "double_div (Finite 1) one_tenth = Finite 10"
proof -
  define c :: real where "c = 3602879701896397 / 2 ^ 55"
  have c: "c \<noteq> 0" by (simp add: c_def)
  have "round_binary64 (1 / c) = 10"
    unfolding c_def
    by (subst round_binary64_eval [where k = 3])
       (simp_all add: round_half_even_def Let_def power_int_minus_divide)
  then have "double_of_real (1 / c) = Finite 10"
    by (simp add: double_of_real_def)
  moreover have "double_div (Finite 1) (Finite c) = double_of_real (1 / c)"
    using c by (simp add: double_div_def is_zero_def)
  ultimately show ?thesis
    by (simp only: one_tenth_value c_def)
qed

lemma four_minus_tiny:
  "double_sub (Finite 4) (double_add (Finite (1 / 2 ^ 60)) (Finite 0)) = Finite 4"
proof -
  define w :: real where "w = 1 / 2 ^ 60"
  have pos: "w \<noteq> 0" "4 - w \<noteq> 0" by (simp_all add: w_def)
  have "round_binary64 (4 - w) = 4"
    unfolding w_def
    by (subst round_binary64_eval [where k = 1])
       (simp_all add: round_half_even_def Let_def power_int_minus_divide)
  then have d: "double_of_real (4 - w) = Finite 4"
    by (simp add: double_of_real_def)
  have t: "double_of_real w = Finite w"
    unfolding w_def
    by (rule double_of_real_dyadic [where m = 1 and e = "- 60"])
       (simp_all add: power_int_minus_divide)
  have "double_sub (Finite 4) (double_add (Finite w) (Finite 0)) = Finite 4"
    using pos by (simp add: double_add_def double_sub_def d t)
  then show ?thesis by (simp only: w_def)
qed




text \<open>
  The times and the counts are those of double arithmetic, not of the exact quotient
  and difference. With 1 cached frame and the ratio 0.1 the cached output time is 10
  and the output count 10, where the exact quotient of 1 and the stored ratio is below
  10; with 4 cached frames and the window time 2^-60 the cached input time is 4, where
  the exact difference is below 4.
\<close>

lemma cached_output_frame_count_rounding_example:
  "mal_resampler_get_cached_input_time (cached_ratio_state 1 one_tenth)
     = (Inr (Finite 1), cached_ratio_state 1 one_tenth)
   \<and> mal_resampler_get_cached_output_time (cached_ratio_state 1 one_tenth)
     = (Inr (Finite 10), cached_ratio_state 1 one_tenth)
   \<and> mal_resampler_get_cached_output_frame_count (cached_ratio_state 1 one_tenth)
     = (Inr 10, cached_ratio_state 1 one_tenth)
   \<and> \<lfloor>1 / valof one_tenth\<rfloor> = 9"
proof -
  let ?s = "cached_ratio_state 1 one_tenth"
  have time: "mal_resampler__calculate_cached_input_time (the (pointee ?s)) = Finite 1"
    by (simp add: example_defs mal_resampler__calculate_cached_input_time_def
          conversions_exact double_add_def double_sub_def double_of_real_eval)
  have a: "mal_resampler_get_cached_input_time ?s = (Inr (Finite 1), ?s)"
    using time by (simp add: mal_resampler_get_cached_input_time_def cached_ratio_state_def)
  have b: "mal_resampler_get_cached_output_time ?s = (Inr (Finite 10), ?s)"
    using time
    by (simp add: mal_resampler_get_cached_output_time_def
          mal_resampler__calculate_cached_output_time_def cached_ratio_state_def
          one_div_one_tenth)
  have c: "mal_resampler_get_cached_output_frame_count ?s = (Inr 10, ?s)"
    by (simp add: mal_resampler_get_cached_output_frame_count_def b double_trunc_def)
  have d: "\<lfloor>1 / valof one_tenth\<rfloor> = 9"
    by (simp add: one_tenth_value floor_eq_iff)
  from a b c d show ?thesis by simp
qed

lemma cached_input_time_rounding_example:
  "mal_resampler_get_cached_input_time (cached_state 4 0 (Finite (1 / 2 ^ 60)))
     = (Inr (Finite 4), cached_state 4 0 (Finite (1 / 2 ^ 60)))
   \<and> mal_resampler_get_cached_output_frame_count (cached_state 4 0 (Finite (1 / 2 ^ 60)))
     = (Inr 4, cached_state 4 0 (Finite (1 / 2 ^ 60)))
   \<and> \<lfloor>(4 - 1 / 2 ^ 60) / (1 :: real)\<rfloor> = 3"
proof -
  define w :: real where "w = 1 / 2 ^ 60"
  let ?s = "cached_state 4 0 (Finite w)"
  have sub: "double_sub (Finite 4) (double_add (Finite w) (Finite 0)) = Finite 4"
    unfolding w_def by (rule four_minus_tiny)
  have time: "mal_resampler__calculate_cached_input_time (the (pointee ?s)) = Finite 4"
    by (simp add: example_defs mal_resampler__calculate_cached_input_time_def
          conversions_exact double_of_real_eval sub)
  have a: "mal_resampler_get_cached_input_time ?s = (Inr (Finite 4), ?s)"
    using time by (simp add: mal_resampler_get_cached_input_time_def cached_state_def)
  have b: "mal_resampler_get_cached_output_time ?s = (Inr (Finite 4), ?s)"
    using time
    by (simp add: mal_resampler_get_cached_output_time_def
          mal_resampler__calculate_cached_output_time_def cached_state_def
          example_resampler_def example_config_def double_div_def is_zero_def
          double_of_real_eval)
  have c: "mal_resampler_get_cached_output_frame_count ?s = (Inr 4, ?s)"
    by (simp add: mal_resampler_get_cached_output_frame_count_def b double_trunc_def)
  have d: "\<lfloor>(4 - w) / (1 :: real)\<rfloor> = 3"
    by (simp add: w_def floor_eq_iff)
  from a c d show ?thesis by (simp only: w_def)
qed

text \<open>With a \<open>NULL\<close> object the times are 0 and the counts are 0.\<close>

lemma cached_frame_counts_null:
  assumes "pointee s = None"
  shows "mal_resampler_get_cached_input_time s = (Inr (Finite 0), s)
       \<and> mal_resampler_get_cached_output_time s = (Inr (Finite 0), s)
       \<and> mal_resampler_get_cached_input_frame_count s = (Inr 0, s)
       \<and> mal_resampler_get_cached_output_frame_count s = (Inr 0, s)"
  using assms
  by (simp add: mal_resampler_get_cached_input_time_def mal_resampler_get_cached_output_time_def
        mal_resampler_get_cached_input_frame_count_def
        mal_resampler_get_cached_output_frame_count_def double_trunc_def)

end
